theory Spec2Isabelle
  imports Main "HOL-Library.AList"
begin

section \<open>Python strings\<close>

text \<open>
  The scheduler (\<^verbatim>\<open>src/gpu-scheduler/scheduler.py\<close>) and its sidecar
  (\<^verbatim>\<open>src/gpu-scheduler-check/app.py\<close>) work on Python \<^verbatim>\<open>str\<close> values.  A
  \<^verbatim>\<open>str\<close> is modelled as a \<^typ>\<open>string\<close>, a character being the code point of that
  number, so the embedding covers text of code points below 256: the character classes
  below are Python's restricted to that range.  Python's \<^verbatim>\<open>int\<close> is unbounded, so it
  is \<^typ>\<open>int\<close>; the conversion of a string to it is capped at 4300 digits, the
  interpreter's default.
\<close>

definition LF :: char where
  "LF = CHR 0x0A"

definition is_space :: "char \<Rightarrow> bool" where
  \<comment> \<open>the white space of \<^verbatim>\<open>str.strip\<close> and \<^verbatim>\<open>int\<close>: TAB, LF, VT, FF, CR, FS, GS, RS, US,
      the blank, NEL (U+0085) and the no-break space (U+00A0)\<close>
  "is_space c =
     (let n = (of_char c :: nat)
      in (9 \<le> n \<and> n \<le> 13) \<or> (28 \<le> n \<and> n \<le> 32) \<or> n = 133 \<or> n = 160)"

definition is_decimal :: "char \<Rightarrow> bool" where
  \<comment> \<open>a decimal digit, \<^verbatim>\<open>0\<close> to \<^verbatim>\<open>9\<close>: what \<^verbatim>\<open>int\<close> and the pattern \<^verbatim>\<open>\d\<close> accept\<close>
  "is_decimal c = (let n = (of_char c :: nat) in 48 \<le> n \<and> n \<le> 57)"

definition is_digit :: "char \<Rightarrow> bool" where
  \<comment> \<open>a digit for \<^verbatim>\<open>str.isdigit\<close>: a decimal digit or one of the superscripts
      U+00B2, U+00B3 and U+00B9, which \<^verbatim>\<open>int\<close> refuses\<close>
  "is_digit c = (is_decimal c \<or> (let n = (of_char c :: nat) in n = 178 \<or> n = 179 \<or> n = 185))"

definition digit_val :: "char \<Rightarrow> int" where
  "digit_val c = int (of_char c) - 48"

definition isdigit :: "string \<Rightarrow> bool" where
  \<comment> \<open>\<^verbatim>\<open>str.isdigit()\<close>: at least one character, all of them digits\<close>
  "isdigit s = (s \<noteq> [] \<and> list_all is_digit s)"

definition strip :: "string \<Rightarrow> string" where
  \<comment> \<open>\<^verbatim>\<open>str.strip()\<close>\<close>
  "strip s = rev (dropWhile is_space (rev (dropWhile is_space s)))"

fun split :: "char \<Rightarrow> string \<Rightarrow> string list" where
  \<comment> \<open>\<^verbatim>\<open>s.split(sep)\<close> for a one-character separator: empty pieces are kept\<close>
  "split sep [] = [[]]"
| "split sep (c # cs) =
     (if c = sep then [] # split sep cs
      else (case split sep cs of
              w # ws \<Rightarrow> (c # w) # ws
            | [] \<Rightarrow> [[c]]))"

definition split1 :: "char \<Rightarrow> string \<Rightarrow> string \<times> string" where
  \<comment> \<open>\<^verbatim>\<open>a, b = s.split(sep, 1)\<close>, used by the source only where \<^verbatim>\<open>sep in s\<close>\<close>
  "split1 sep s = (takeWhile (\<lambda>c. c \<noteq> sep) s, tl (dropWhile (\<lambda>c. c \<noteq> sep) s))"

fun digits_acc :: "int \<Rightarrow> string \<Rightarrow> int option" where
  \<comment> \<open>digits, single underscores allowed between two digits\<close>
  "digits_acc acc [] = Some acc"
| "digits_acc acc (c # cs) =
     (if is_decimal c then digits_acc (10 * acc + digit_val c) cs
      else if c = CHR ''_'' then
        (case cs of
           [] \<Rightarrow> None
         | d # ds \<Rightarrow> if is_decimal d then digits_acc acc cs else None)
      else None)"

definition max_str_digits :: nat where
  \<comment> \<open>\<^verbatim>\<open>sys.get_int_max_str_digits()\<close>, by default\<close>
  "max_str_digits = 4300"

definition py_digits :: "string \<Rightarrow> int option" where
  \<comment> \<open>the digits after the sign; underscores do not count for the cap\<close>
  "py_digits s =
     (case s of
        [] \<Rightarrow> None
      | c # cs \<Rightarrow>
          if is_decimal c \<and> length (filter is_decimal s) \<le> max_str_digits
          then digits_acc 0 s else None)"

definition py_int :: "string \<Rightarrow> int option" where
  \<comment> \<open>\<^verbatim>\<open>int(s)\<close> in base 10; \<open>None\<close> stands for \<^verbatim>\<open>ValueError\<close>, raised for a
      malformed literal and for one of more than 4300 digits\<close>
  "py_int s =
     (case strip s of
        [] \<Rightarrow> None
      | c # cs \<Rightarrow>
          if c = CHR ''-'' then map_option uminus (py_digits cs)
          else if c = CHR ''+'' then py_digits cs
          else py_digits (c # cs))"

section \<open>The mapping parser of the scheduler\<close>

text \<open>
  A Python \<^verbatim>\<open>dict\<close> is an association list in insertion order; \<^const>\<open>AList.update\<close>
  is \<^verbatim>\<open>d[k] = v\<close> (an existing key keeps its place and takes the new value) and
  \<^const>\<open>map_of\<close> is the lookup.
\<close>

type_synonym entry = "string \<times> int list"
type_synonym mapping = "(int \<times> entry) list"

fun parse_devices :: "string list \<Rightarrow> int list" where
  \<comment> \<open>lines 93-97: a token that is no integer is dropped, the others are kept\<close>
  "parse_devices [] = []"
| "parse_devices (device # device_parts) =
     (case py_int (strip device) of
        Some d \<Rightarrow> d # parse_devices device_parts
      | None \<Rightarrow> parse_devices device_parts)"

text \<open>
  One pass of the loop body ends in one of three ways: \<^verbatim>\<open>continue\<close>, the
  \<^verbatim>\<open>ValueError\<close> of \<^verbatim>\<open>int(pod_index_str.strip())\<close>, or the assignment
  \<^verbatim>\<open>mapping[pod_index] = (node_name, cuda_devices)\<close>.
\<close>

datatype line_result = Skipped | Raised | Entry int entry

definition parse_line :: "string \<Rightarrow> line_result" where
  \<comment> \<open>the body of the \<^verbatim>\<open>for\<close> loop, lines 74-99\<close>
  "parse_line line0 =
     (let line = strip line0 in
      if line = [] \<or> CHR ''='' \<notin> set line then Skipped
      else
        let (pod_index_str, node_mapping) = split1 (CHR ''='') line in
        case py_int (strip pod_index_str) of
          None \<Rightarrow> Raised
        | Some pod_index \<Rightarrow>
            if CHR '':'' \<notin> set node_mapping then Skipped
            else
              let (node_name, cuda_devices_str) = split1 (CHR '':'') node_mapping;
                  cuda_devices =
                    (if strip cuda_devices_str \<noteq> []
                     then parse_devices (split (CHR '','') (strip cuda_devices_str))
                     else [])
              in Entry pod_index (strip node_name, cuda_devices))"

fun parse_lines :: "mapping \<Rightarrow> string list \<Rightarrow> mapping" where
  \<comment> \<open>the \<^verbatim>\<open>for\<close> loop inside \<^verbatim>\<open>try\<close>: an exception leaves the loop, and the
      handler of line 102 only logs, so the mapping built so far is returned\<close>
  "parse_lines m [] = m"
| "parse_lines m (line # lines) =
     (case parse_line line of
        Skipped \<Rightarrow> parse_lines m lines
      | Raised \<Rightarrow> m
      | Entry pod_index e \<Rightarrow> parse_lines (AList.update pod_index e m) lines)"

definition parse_gpu_mapping :: "string \<Rightarrow> mapping" where
  "parse_gpu_mapping annotation_value =
     (if annotation_value = [] then []
      else parse_lines [] (split LF (strip annotation_value)))"

section \<open>The index resolver of the scheduler\<close>

fun re_search :: "string \<Rightarrow> string option" where
  \<comment> \<open>\<^verbatim>\<open>re.search(r'-(\d+)$', s)\<close>, giving \<^verbatim>\<open>group(1)\<close>: the leftmost hyphen followed
      by a run of digits that reaches the end of the string, or the line feed that
      ends the string (\<^verbatim>\<open>$\<close> matches there too)\<close>
  "re_search [] = None"
| "re_search (c # cs) =
     (if c = CHR ''-'' \<and> takeWhile is_decimal cs \<noteq> [] \<and>
         (dropWhile is_decimal cs = [] \<or> dropWhile is_decimal cs = [LF])
      then Some (takeWhile is_decimal cs)
      else re_search cs)"

definition get_pod_index_from_name :: "string \<Rightarrow> int option" where
  \<comment> \<open>lines 107-132; a \<^verbatim>\<open>ValueError\<close> of \<^verbatim>\<open>int\<close> is caught and gives \<^verbatim>\<open>None\<close>,
      which is what \<^const>\<open>py_int\<close> returns for it\<close>
  "get_pod_index_from_name pod_name =
     (case (if CHR ''-'' \<in> set pod_name
            then find isdigit (rev (split (CHR ''-'') pod_name))
            else None) of
        Some part \<Rightarrow> py_int part
      | None \<Rightarrow>
          (case re_search pod_name of
             Some group1 \<Rightarrow> py_int group1
           | None \<Rightarrow> if isdigit pod_name then py_int pod_name else None))"

text \<open>
  The resolver as the specification words it, for comparison with the code: the value of
  a run of digits, the last all-digit token of a hyphenated name, else the whole name
  when it is numeric, else unresolved.
\<close>

definition decimal :: "string \<Rightarrow> int" where
  "decimal s = foldl (\<lambda>a c. 10 * a + digit_val c) 0 s"

definition numeric :: "string \<Rightarrow> bool" where
  \<comment> \<open>one or more characters, each of them one of \<^verbatim>\<open>0\<close> to \<^verbatim>\<open>9\<close>\<close>
  "numeric s = (s \<noteq> [] \<and> list_all is_decimal s)"

definition resolve_spec :: "string \<Rightarrow> int option" where
  "resolve_spec name =
     (case (if CHR ''-'' \<in> set name
            then find numeric (rev (split (CHR ''-'') name))
            else None) of
        Some token \<Rightarrow> Some (decimal token)
      | None \<Rightarrow> if numeric name then Some (decimal name) else None)"

text \<open>
  The names the resolvers work on are names of pods.  The control plane admits a pod only
  under a name of at most 253 characters, each a lower-case letter, a decimal digit, a
  hyphen or a dot.
\<close>

definition is_pod_char :: "char \<Rightarrow> bool" where
  "is_pod_char c =
     ((let n = (of_char c :: nat) in 97 \<le> n \<and> n \<le> 122) \<or> is_decimal c \<or>
      c = CHR ''-'' \<or> c = CHR ''.'')"

definition is_pod_name :: "string \<Rightarrow> bool" where
  "is_pod_name name = (length name \<le> 253 \<and> list_all is_pod_char name)"

section \<open>The cluster as the scheduler sees it\<close>

text \<open>
  The control plane is the environment.  A call of the client either returns or raises;
  the source tells two classes of exception apart, \<^verbatim>\<open>ApiException\<close> and every other
  subclass of \<^verbatim>\<open>Exception\<close> (line 259 against line 262).  \<^verbatim>\<open>KeyboardInterrupt\<close>
  and the other exceptions outside \<^verbatim>\<open>Exception\<close> end the process and are not
  modelled.
\<close>

datatype exn = ApiException | OtherException

record condition =
  cond_type :: string
  cond_status :: string

record node_status =
  conditions :: "condition list option"

record node =
  node_name :: string
  status :: "node_status option"

text \<open>
  A pod as the watch delivers it: \<^verbatim>\<open>metadata\<close> and \<^verbatim>\<open>spec\<close> are present (the loop
  reads \<^verbatim>\<open>pod.metadata.name\<close> and \<^verbatim>\<open>pod.spec.scheduler_name\<close> before it calls
  the pipeline), \<^verbatim>\<open>annotations\<close>, \<^verbatim>\<open>scheduler_name\<close> and a container's
  \<^verbatim>\<open>env\<close> may be \<^verbatim>\<open>None\<close>.
\<close>

record env_var =
  env_name :: string
  env_value :: string

record container =
  container_name :: string
  env :: "env_var list option"

record pod =
  pod_name :: string
  namespace :: string
  annotations :: "(string \<times> string) list option"
  scheduler_name :: "string option"
  containers :: "container list"

record binding =
  binding_name :: string
  binding_namespace :: string
  target_kind :: string
  target_name :: string
  target_api_version :: string

record cluster =
  list_node :: "exn + node list"
  create_namespaced_pod_binding :: "string \<Rightarrow> string \<Rightarrow> binding \<Rightarrow> exn + unit"

definition scheduler_name_const :: string where
  "scheduler_name_const = ''gpu-scheduler''"

definition annotation_key :: string where
  "annotation_key = ''gpu-scheduling-map''"

section \<open>Node validation\<close>

definition is_ready :: "condition \<Rightarrow> bool" where
  "is_ready c = (cond_type c = ''Ready'' \<and> cond_status c = ''True'')"

definition has_conditions :: "node \<Rightarrow> bool" where
  \<comment> \<open>\<^verbatim>\<open>node.status and node.status.conditions\<close>: neither \<^verbatim>\<open>None\<close> nor an empty list\<close>
  "has_conditions n =
     (case status n of
        None \<Rightarrow> False
      | Some st \<Rightarrow> (case conditions st of None \<Rightarrow> False | Some cs \<Rightarrow> cs \<noteq> []))"

definition node_conditions :: "node \<Rightarrow> condition list" where
  "node_conditions n =
     (case status n of
        None \<Rightarrow> []
      | Some st \<Rightarrow> (case conditions st of None \<Rightarrow> [] | Some cs \<Rightarrow> cs))"

fun scan_nodes :: "string \<Rightarrow> node list \<Rightarrow> bool" where
  \<comment> \<open>lines 138-152: the first node of that name decides\<close>
  "scan_nodes nm [] = False"
| "scan_nodes nm (n # ns) =
     (if node_name n = nm
      then (if has_conditions n then list_ex is_ready (node_conditions n) else False)
      else scan_nodes nm ns)"

definition validate_node_exists :: "cluster \<Rightarrow> string \<Rightarrow> exn + bool" where
  \<comment> \<open>lines 134-155: only \<^verbatim>\<open>ApiException\<close> is caught here\<close>
  "validate_node_exists cl nm =
     (case list_node cl of
        Inl ApiException \<Rightarrow> Inr False
      | Inl OtherException \<Rightarrow> Inl OtherException
      | Inr nodes \<Rightarrow> Inr (scan_nodes nm nodes))"

section \<open>Injection of the device list\<close>

function nat_str :: "nat \<Rightarrow> string" where
  "nat_str n =
     (if n < 10 then [char_of (48 + n)]
      else nat_str (n div 10) @ [char_of (48 + n mod 10)])"
  by pat_completeness auto
termination
  by (relation "measure id") auto

definition py_str :: "int \<Rightarrow> string" where
  \<comment> \<open>\<^verbatim>\<open>str(i)\<close>\<close>
  "py_str i = (if i < 0 then CHR ''-'' # nat_str (nat (- i)) else nat_str (nat i))"

fun join :: "string \<Rightarrow> string list \<Rightarrow> string" where
  "join sep [] = []"
| "join sep [x] = x"
| "join sep (x # y # ys) = x @ sep @ join sep (y # ys)"

definition inject_container :: "env_var \<Rightarrow> container \<Rightarrow> container" where
  \<comment> \<open>lines 172-179, one container\<close>
  "inject_container cuda_env_var c =
     c\<lparr>env := Some (filter (\<lambda>e. env_name e \<noteq> ''CUDA_VISIBLE_DEVICES'')
                        (case env c of None \<Rightarrow> [] | Some es \<Rightarrow> es)
                     @ [cuda_env_var])\<rparr>"

definition inject_cuda_env_var :: "pod \<Rightarrow> int list \<Rightarrow> pod" where
  \<comment> \<open>lines 157-182: the pod object is changed in place and returned\<close>
  "inject_cuda_env_var p cuda_devices =
     (let cuda_devices_str = (if cuda_devices \<noteq> [] then join '','' (map py_str cuda_devices) else []);
          cuda_env_var = \<lparr>env_name = ''CUDA_VISIBLE_DEVICES'', env_value = cuda_devices_str\<rparr>
      in p\<lparr>containers := map (inject_container cuda_env_var) (containers p)\<rparr>)"

section \<open>The scheduling pipeline\<close>

text \<open>
  What one call of \<^verbatim>\<open>schedule_pod\<close> leaves behind: the value it returns, the
  \<^verbatim>\<open>return\<close> statement it left through (each one follows its own log line), the
  requests it sent to the control plane, in order, and the pod object, which Python
  passes by reference.
\<close>

datatype call = ListNode | CreateNamespacedPodBinding string string binding

datatype exit =
    NoAnnotation          \<comment> \<open>line 196\<close>
  | EmptyMapping          \<comment> \<open>line 202\<close>
  | NoPodIndex            \<comment> \<open>line 208\<close>
  | NoMappingForIndex     \<comment> \<open>line 213\<close>
  | TargetNodeMissing     \<comment> \<open>line 220\<close>
  | Scheduled             \<comment> \<open>line 257\<close>
  | ApiError              \<comment> \<open>line 261\<close>
  | UnexpectedError       \<comment> \<open>line 264\<close>

record result =
  returned :: bool
  exit_site :: exit
  calls :: "call list"
  pod_after :: pod

definition schedule_pod_try :: "cluster \<Rightarrow> pod \<Rightarrow> call list \<times> (exn + bool \<times> exit)" where
  \<comment> \<open>the \<^verbatim>\<open>try\<close> block, lines 189-257\<close>
  "schedule_pod_try cl p =
     (let anns = (case annotations p of None \<Rightarrow> [] | Some a \<Rightarrow> a) in
      case map_of anns annotation_key of
        None \<Rightarrow> ([], Inr (False, NoAnnotation))
      | Some annotation_value \<Rightarrow>
          let gpu_mapping = parse_gpu_mapping annotation_value in
          if gpu_mapping = [] then ([], Inr (False, EmptyMapping))
          else
            (case get_pod_index_from_name (pod_name p) of
               None \<Rightarrow> ([], Inr (False, NoPodIndex))
             | Some pod_index \<Rightarrow>
                 (case map_of gpu_mapping pod_index of
                    None \<Rightarrow> ([], Inr (False, NoMappingForIndex))
                  | Some (target, cuda_devices) \<Rightarrow>
                      (case validate_node_exists cl target of
                         Inl e \<Rightarrow> ([ListNode], Inl e)
                       | Inr False \<Rightarrow> ([ListNode], Inr (False, TargetNodeMissing))
                       | Inr True \<Rightarrow>
                           let b = \<lparr>binding_name = pod_name p,
                                    binding_namespace = namespace p,
                                    target_kind = ''Node'',
                                    target_name = target,
                                    target_api_version = ''v1''\<rparr>;
                               sent = [ListNode,
                                       CreateNamespacedPodBinding (pod_name p) (namespace p) b]
                           in (case create_namespaced_pod_binding cl (pod_name p) (namespace p) b of
                                 Inl e \<Rightarrow> (sent, Inl e)
                               | Inr _ \<Rightarrow> (sent, Inr (True, Scheduled)))))))"

definition schedule_pod :: "cluster \<Rightarrow> pod \<Rightarrow> exn + result" where
  \<comment> \<open>lines 184-264: the two handlers; no statement assigns to the pod\<close>
  "schedule_pod cl p =
     (case schedule_pod_try cl p of
        (sent, Inr (b, x)) \<Rightarrow>
          Inr \<lparr>returned = b, exit_site = x, calls = sent, pod_after = p\<rparr>
      | (sent, Inl ApiException) \<Rightarrow>
          Inr \<lparr>returned = False, exit_site = ApiError, calls = sent, pod_after = p\<rparr>
      | (sent, Inl OtherException) \<Rightarrow>
          Inr \<lparr>returned = False, exit_site = UnexpectedError, calls = sent, pod_after = p\<rparr>)"

text \<open>
  The decision algorithm as the specification words it (section 4.5, steps 1 to 6),
  for comparison with the code.  The outcome of a call of the code is read off the
  \<^verbatim>\<open>return\<close> statement it left through; a fault caught by one of the two handlers
  counts for the step whose request raised it.
\<close>

datatype outcome =
  NoOp | MappingEmpty | IndexUnresolved | MappingMiss | NodeUnavailable | BindFailed | Success

definition binding_sent :: "call \<Rightarrow> bool" where
  "binding_sent c = (case c of ListNode \<Rightarrow> False | CreateNamespacedPodBinding _ _ _ \<Rightarrow> True)"

definition outcome_of :: "result \<Rightarrow> outcome" where
  "outcome_of r =
     (case exit_site r of
        NoAnnotation \<Rightarrow> NoOp
      | EmptyMapping \<Rightarrow> MappingEmpty
      | NoPodIndex \<Rightarrow> IndexUnresolved
      | NoMappingForIndex \<Rightarrow> MappingMiss
      | TargetNodeMissing \<Rightarrow> NodeUnavailable
      | Scheduled \<Rightarrow> Success
      | ApiError \<Rightarrow> (if list_ex binding_sent (calls r) then BindFailed else NodeUnavailable)
      | UnexpectedError \<Rightarrow> (if list_ex binding_sent (calls r) then BindFailed else NodeUnavailable))"

definition pipeline_spec :: "cluster \<Rightarrow> pod \<Rightarrow> outcome" where
  "pipeline_spec cl p =
     (case map_of (case annotations p of None \<Rightarrow> [] | Some a \<Rightarrow> a) annotation_key of
        None \<Rightarrow> NoOp
      | Some text \<Rightarrow>
          if parse_gpu_mapping text = [] then MappingEmpty
          else
            (case get_pod_index_from_name (pod_name p) of
               None \<Rightarrow> IndexUnresolved
             | Some i \<Rightarrow>
                 (case map_of (parse_gpu_mapping text) i of
                    None \<Rightarrow> MappingMiss
                  | Some (target, devices) \<Rightarrow>
                      if validate_node_exists cl target \<noteq> Inr True then NodeUnavailable
                      else
                        (case create_namespaced_pod_binding cl (pod_name p) (namespace p)
                                \<lparr>binding_name = pod_name p, binding_namespace = namespace p,
                                 target_kind = ''Node'', target_name = target,
                                 target_api_version = ''v1''\<rparr> of
                           Inl _ \<Rightarrow> BindFailed
                         | Inr _ \<Rightarrow> Success))))"

definition target_of :: "pod \<Rightarrow> string option" where
  \<comment> \<open>the node the annotation gives to the pod, when steps 1 to 4 find one\<close>
  "target_of p =
     (case map_of (case annotations p of None \<Rightarrow> [] | Some a \<Rightarrow> a) annotation_key of
        None \<Rightarrow> None
      | Some text \<Rightarrow>
          (case get_pod_index_from_name (pod_name p) of
             None \<Rightarrow> None
           | Some i \<Rightarrow> map_option fst (map_of (parse_gpu_mapping text) i)))"

section \<open>The watch loop\<close>

text \<open>
  One pass of \<^verbatim>\<open>while True\<close> opens a stream and consumes it.  The environment decides
  what the stream delivers and how it ends: the server closes it when the subscription's
  \<^verbatim>\<open>timeout_seconds=60\<close> runs out, and the generator is then exhausted, or the
  stream raises.  The loop is run against the list of streams the environment serves, and
  its behaviour is the trace of what it logs, which pods it hands to the pipeline and
  how long it sleeps (in seconds).
\<close>

datatype level = DEBUG | INFO | WARNING | ERROR

datatype message =
    Starting              \<comment> \<open>line 270\<close>
  | Watching              \<comment> \<open>line 276\<close>
  | Processing string string    \<comment> \<open>line 295\<close>
  | ErrorInWatchLoop exn  \<comment> \<open>line 299\<close>
  | Restarting            \<comment> \<open>line 300\<close>

datatype action = Log level message | SchedulePod result | Sleep nat

record event =
  event_type :: string
  object :: pod

datatype ending = TimedOut | Broken exn

type_synonym stream = "event list \<times> ending"

definition ours :: "pod \<Rightarrow> bool" where
  \<comment> \<open>lines 290-293\<close>
  "ours p =
     (scheduler_name p = Some scheduler_name_const \<or>
      (scheduler_name p = None \<and>
       (case annotations p of
          None \<Rightarrow> False
        | Some a \<Rightarrow> a \<noteq> [] \<and> map_of a annotation_key \<noteq> None)))"

fun for_events :: "cluster \<Rightarrow> event list \<Rightarrow> action list \<times> exn option" where
  \<comment> \<open>lines 279-296: the events of one stream, up to the first exception of the body\<close>
  "for_events cl [] = ([], None)"
| "for_events cl (ev # evs) =
     (if event_type ev \<in> set [''ADDED'', ''MODIFIED''] \<and> ours (object ev)
      then
        (let processing = Log INFO (Processing (pod_name (object ev)) (namespace (object ev))) in
         case schedule_pod cl (object ev) of
           Inl e \<Rightarrow> ([processing], Some e)
         | Inr r \<Rightarrow>
             (case for_events cl evs of
                (acts, raised) \<Rightarrow> (processing # SchedulePod r # acts, raised)))
      else for_events cl evs)"

definition handler :: "exn \<Rightarrow> action list" where
  \<comment> \<open>lines 298-301\<close>
  "handler e = [Log ERROR (ErrorInWatchLoop e), Log INFO Restarting, Sleep 5]"

definition watch_iteration :: "cluster \<Rightarrow> stream \<Rightarrow> action list" where
  \<comment> \<open>lines 275-301, one pass of \<^verbatim>\<open>while True\<close>\<close>
  "watch_iteration cl st =
     (case for_events cl (fst st) of
        (acts, Some e) \<Rightarrow> Log INFO Watching # acts @ handler e
      | (acts, None) \<Rightarrow>
          (case snd st of
             TimedOut \<Rightarrow> Log INFO Watching # acts
           | Broken e \<Rightarrow> Log INFO Watching # acts @ handler e))"

fun watch_loop :: "cluster \<Rightarrow> stream list \<Rightarrow> action list" where
  "watch_loop cl [] = []"
| "watch_loop cl (st # sts) = watch_iteration cl st @ watch_loop cl sts"

definition watch_unscheduled_pods :: "cluster \<Rightarrow> stream list \<Rightarrow> action list" where
  "watch_unscheduled_pods cl sts = Log INFO Starting # watch_loop cl sts"

definition is_sleep :: "action \<Rightarrow> bool" where
  "is_sleep a = (case a of Sleep _ \<Rightarrow> True | _ \<Rightarrow> False)"

definition is_watch_error :: "action \<Rightarrow> bool" where
  "is_watch_error a = (case a of Log ERROR (ErrorInWatchLoop _) \<Rightarrow> True | _ \<Rightarrow> False)"

definition events_part :: "cluster \<Rightarrow> event list \<Rightarrow> action list" where
  \<comment> \<open>what the loop does for the events of a stream, whatever the stream's end\<close>
  "events_part cl evs = fst (for_events cl evs)"

section \<open>The sidecar\<close>

datatype app_message = CouldNotExtractPodIndex string

definition app_get_pod_index_from_name :: "string \<Rightarrow> int \<times> (level \<times> app_message) list" where
  \<comment> \<open>\<^verbatim>\<open>app.py\<close>, lines 29-39: the index and what was logged\<close>
  "app_get_pod_index_from_name name =
     (case re_search name of
        Some group1 \<Rightarrow>
          (case py_int group1 of
             Some i \<Rightarrow> (i, [])
           | None \<Rightarrow> (0, [(WARNING, CouldNotExtractPodIndex name)]))
      | None \<Rightarrow> (0, [(WARNING, CouldNotExtractPodIndex name)]))"

datatype app_line_result = AppSkipped | AppRaised | AppEntry int string

definition app_parse_line :: "string \<Rightarrow> app_line_result" where
  \<comment> \<open>\<^verbatim>\<open>app.py\<close>, lines 50-63\<close>
  "app_parse_line line0 =
     (let line = strip line0 in
      if line = [] \<or> CHR ''='' \<notin> set line then AppSkipped
      else
        let (pod_index_str, node_mapping) = split1 (CHR ''='') line in
        case py_int (strip pod_index_str) of
          None \<Rightarrow> AppRaised
        | Some pod_index \<Rightarrow>
            if CHR '':'' \<notin> set node_mapping then AppSkipped
            else
              let (node_nm, cuda_devices_str) = split1 (CHR '':'') node_mapping
              in AppEntry pod_index (strip cuda_devices_str))"

fun app_parse_lines :: "(int \<times> string) list \<Rightarrow> string list \<Rightarrow> (int \<times> string) list" where
  "app_parse_lines m [] = m"
| "app_parse_lines m (line # lines) =
     (case app_parse_line line of
        AppSkipped \<Rightarrow> app_parse_lines m lines
      | AppRaised \<Rightarrow> m
      | AppEntry pod_index devices \<Rightarrow> app_parse_lines (AList.update pod_index devices m) lines)"

definition app_parse_gpu_mapping :: "string \<Rightarrow> (int \<times> string) list" where
  \<comment> \<open>\<^verbatim>\<open>app.py\<close>, lines 41-68\<close>
  "app_parse_gpu_mapping annotation_value =
     (if annotation_value = [] then []
      else app_parse_lines [] (split LF (strip annotation_value)))"

text \<open>
  \<^verbatim>\<open>setup_cuda_devices\<close> works on the process environment, a dictionary, and on what
  its surroundings answer: whether the in-cluster configuration loads, and what reading
  the pod from the control plane gives.  Every exception is caught (lines 76 and 112) and
  leaves the environment as it is.
\<close>

definition environ_get :: "(string \<times> string) list \<Rightarrow> string \<Rightarrow> string \<Rightarrow> string" where
  \<comment> \<open>\<^verbatim>\<open>os.environ.get(key, default)\<close>\<close>
  "environ_get environ key dflt = (case map_of environ key of None \<Rightarrow> dflt | Some v \<Rightarrow> v)"

definition setup_cuda_devices ::
  "bool \<Rightarrow> (string \<Rightarrow> string \<Rightarrow> exn + pod) \<Rightarrow> (string \<times> string) list \<Rightarrow> (string \<times> string) list" where
  \<comment> \<open>\<^verbatim>\<open>app.py\<close>, lines 70-113; the result is the process environment afterwards\<close>
  "setup_cuda_devices in_cluster read_namespaced_pod environ =
     (if \<not> in_cluster then environ
      else
        let name = environ_get environ ''POD_NAME'' ''unknown'';
            pod_namespace = environ_get environ ''POD_NAMESPACE'' ''default''
        in if name = ''unknown'' then environ
           else
             (case read_namespaced_pod name pod_namespace of
                Inl e \<Rightarrow> environ
              | Inr p \<Rightarrow>
                  let anns = (case annotations p of None \<Rightarrow> [] | Some a \<Rightarrow> a);
                      gpu_mapping_annotation =
                        (case map_of anns ''gpu-scheduling-map'' of None \<Rightarrow> [] | Some v \<Rightarrow> v)
                  in if gpu_mapping_annotation = [] then environ
                     else
                       let gpu_mapping = app_parse_gpu_mapping gpu_mapping_annotation;
                           pod_index = fst (app_get_pod_index_from_name name)
                       in (case map_of gpu_mapping pod_index of
                             Some cuda_devices \<Rightarrow>
                               AList.update ''CUDA_VISIBLE_DEVICES'' cuda_devices environ
                           | None \<Rightarrow> environ)))"


section \<open>Signs in an annotation\<close>

text \<open>
  \<^verbatim>\<open>int\<close> accepts a sign, so the parser can return negative numbers.  A line that
  contains \<^verbatim>\<open>=\<close> has an index field, the text before its first \<^verbatim>\<open>=\<close>; if a \<^verbatim>\<open>:\<close>
  follows, the line has device tokens, the comma-separated pieces of the text after the
  first such \<^verbatim>\<open>:\<close>.  A line without \<^verbatim>\<open>=\<close> has neither.  A field or token is
  minus-signed when its first character that is not white space is a minus sign.
\<close>

definition minus_signed :: "string \<Rightarrow> bool" where
  "minus_signed s = (case strip s of [] \<Rightarrow> False | c # _ \<Rightarrow> c = CHR ''-'')"

definition index_fields :: "string \<Rightarrow> string list" where
  \<comment> \<open>the index field of a line, if it has one\<close>
  "index_fields line =
     (if CHR ''='' \<in> set (strip line) then [fst (split1 (CHR ''='') (strip line))] else [])"

definition device_tokens :: "string \<Rightarrow> string list" where
  "device_tokens line =
     (if CHR ''='' \<in> set (strip line) \<and> CHR '':'' \<in> set (snd (split1 (CHR ''='') (strip line)))
      then split (CHR '','')
             (strip (snd (split1 (CHR '':'') (snd (split1 (CHR ''='') (strip line))))))
      else [])"

definition unsigned :: "string \<Rightarrow> bool" where
  \<comment> \<open>no index field and no device token of the text is minus-signed\<close>
  "unsigned text =
     (\<forall>line\<in>set (split LF (strip text)).
        (\<forall>field\<in>set (index_fields line). \<not> minus_signed field) \<and>
        (\<forall>tok\<in>set (device_tokens line). \<not> minus_signed tok))"

section \<open>The scenario of the specification\<close>

text \<open>
  The end-to-end scenario of the specification (section 8): the pod \<^verbatim>\<open>worker-2\<close> with the
  annotation \<^verbatim>\<open>2=nodeC:4,5\<close> and no scheduler declared, here with one container that
  already carries a device list, and a cluster whose only node \<^verbatim>\<open>nodeC\<close> reports the
  given status of its \<^verbatim>\<open>Ready\<close> condition and accepts every binding.
\<close>

definition worker2 :: pod where
  "worker2 = \<lparr>pod_name = ''worker-2'', namespace = ''default'',
     annotations = Some [(''gpu-scheduling-map'', ''2=nodeC:4,5'')],
     scheduler_name = None,
     containers = [\<lparr>container_name = ''main'',
                    env = Some [\<lparr>env_name = ''CUDA_VISIBLE_DEVICES'', env_value = ''0''\<rparr>]\<rparr>]\<rparr>"

definition cluster_nodeC :: "string \<Rightarrow> cluster" where
  "cluster_nodeC ready =
     \<lparr>list_node = Inr [\<lparr>node_name = ''nodeC'', status = Some \<lparr>conditions =
         Some [\<lparr>cond_type = ''Ready'', cond_status = ready\<rparr>]\<rparr>\<rparr>],
      create_namespaced_pod_binding = (\<lambda>n ns b. Inr ())\<rparr>"

definition failing_cluster :: "exn \<Rightarrow> cluster" where
  \<comment> \<open>a control plane whose node query raises\<close>
  "failing_cluster e =
     \<lparr>list_node = Inl e, create_namespaced_pod_binding = (\<lambda>n ns b. Inr ())\<rparr>"

section \<open>Evaluation\<close>

lemmas py_defs = strip_def is_space_def is_decimal_def is_digit_def digit_val_def isdigit_def
  numeric_def split1_def max_str_digits_def py_digits_def py_int_def LF_def

section \<open>Properties of the mapping parser\<close>

lemma digit_val_nonneg: "is_decimal c \<Longrightarrow> 0 \<le> digit_val c"
  by (simp add: is_decimal_def digit_val_def Let_def)

lemma digits_acc_nonneg: "0 \<le> acc \<Longrightarrow> digits_acc acc s = Some n \<Longrightarrow> 0 \<le> n"
proof (induction s arbitrary: acc)
  case Nil
  then show ?case by simp
next
  case (Cons c cs)
  show ?case
  proof (cases "is_decimal c")
    case True
    with Cons.prems have "digits_acc (10 * acc + digit_val c) cs = Some n" by simp
    moreover have "0 \<le> 10 * acc + digit_val c"
      using Cons.prems(1) digit_val_nonneg [OF True] by simp
    ultimately show ?thesis by (rule Cons.IH [rotated])
  next
    case False
    with Cons.prems have "digits_acc acc cs = Some n"
      by (auto split: if_splits list.splits)
    with Cons.prems(1) show ?thesis by (rule Cons.IH)
  qed
qed

lemma py_digits_nonneg: "py_digits s = Some n \<Longrightarrow> 0 \<le> n"
proof -
  assume "py_digits s = Some n"
  then have "digits_acc 0 s = Some n"
    by (cases s) (simp_all add: py_digits_def del: digits_acc.simps split: if_splits)
  then show ?thesis using digits_acc_nonneg [of 0 s n] by simp
qed

lemma py_int_negative: "py_int s = Some n \<Longrightarrow> n < 0 \<Longrightarrow> minus_signed s"
  by (auto simp: py_int_def minus_signed_def split: list.splits if_splits dest: py_digits_nonneg)

lemma strip_last: "strip s \<noteq> [] \<Longrightarrow> \<not> is_space (last (strip s))"
proof -
  assume ne: "strip s \<noteq> []"
  define b where "b = dropWhile is_space (rev (dropWhile is_space s))"
  have "strip s = rev b" by (simp add: strip_def b_def)
  with ne have "b \<noteq> []" by simp
  then have "\<not> is_space (hd b)" unfolding b_def by (rule hd_dropWhile)
  moreover have "last (strip s) = hd b"
    using \<open>b \<noteq> []\<close> \<open>strip s = rev b\<close> by (simp add: last_rev)
  ultimately show ?thesis by simp
qed

lemma strip_hd: "strip s \<noteq> [] \<Longrightarrow> \<not> is_space (hd (strip s))"
proof -
  assume ne: "strip s \<noteq> []"
  define a where "a = dropWhile is_space s"
  define b where "b = dropWhile is_space (rev a)"
  have sb: "strip s = rev b" by (simp add: strip_def a_def b_def)
  with ne have bne: "b \<noteq> []" by simp
  have "rev a = takeWhile is_space (rev a) @ b"
    by (simp add: b_def)
  then have "a = rev b @ rev (takeWhile is_space (rev a))"
    by (metis rev_append rev_rev_ident)
  then obtain x where ax: "a = rev b @ x" ..
  with bne have "a \<noteq> []" and "hd a = hd (rev b)"
    by (simp_all add: hd_append)
  moreover from \<open>a \<noteq> []\<close> have "\<not> is_space (hd a)" unfolding a_def by (rule hd_dropWhile)
  ultimately show ?thesis using sb by simp
qed

lemma strip_fixed: "s = [] \<or> (\<not> is_space (hd s) \<and> \<not> is_space (last s)) \<Longrightarrow> strip s = s"
proof (cases s)
  case Nil
  then show ?thesis by (simp add: strip_def)
next
  case (Cons c cs)
  assume "s = [] \<or> (\<not> is_space (hd s) \<and> \<not> is_space (last s))"
  with Cons have h: "\<not> is_space (hd s)" and l: "\<not> is_space (last s)" by auto
  from h Cons have 1: "dropWhile is_space s = s" by simp
  have "rev s \<noteq> []" using Cons by simp
  moreover have "hd (rev s) = last s" using Cons by (simp add: hd_rev)
  ultimately have 2: "dropWhile is_space (rev s) = rev s"
    using l by (metis dropWhile_eq_self_iff)
  show ?thesis by (simp add: strip_def 1 2)
qed

lemma strip_strip: "strip (strip s) = strip s"
  using strip_hd [of s] strip_last [of s] by (intro strip_fixed) blast

lemma minus_signed_strip: "minus_signed (strip s) = minus_signed s"
  by (simp add: minus_signed_def strip_strip)

lemma parse_devices_negative:
  "d \<in> set (parse_devices toks) \<Longrightarrow> d < 0 \<Longrightarrow> \<exists>tok\<in>set toks. minus_signed tok"
proof (induction toks)
  case Nil
  then show ?case by simp
next
  case (Cons tok toks)
  show ?case
  proof (cases "py_int (strip tok)")
    case None
    with Cons show ?thesis by simp
  next
    case (Some n)
    show ?thesis
    proof (cases "d = n")
      case True
      with Some Cons.prems(2) have "minus_signed (strip tok)"
        by (auto dest: py_int_negative)
      then show ?thesis by (simp add: minus_signed_strip)
    next
      case False
      with Some Cons show ?thesis by simp
    qed
  qed
qed

lemma parse_lines_from:
  "map_of (parse_lines m ls) k = Some e \<Longrightarrow>
   map_of m k = Some e \<or> (\<exists>l\<in>set ls. parse_line l = Entry k e)"
proof (induction ls arbitrary: m)
  case Nil
  then show ?case by simp
next
  case (Cons l ls)
  show ?case
  proof (cases "parse_line l")
    case Skipped
    with Cons show ?thesis by auto
  next
    case Raised
    with Cons show ?thesis by auto
  next
    case (Entry k' e')
    with Cons.prems have "map_of (parse_lines (AList.update k' e' m) ls) k = Some e" by simp
    from Cons.IH [OF this] Entry show ?thesis
      by (auto simp: update_conv' split: if_splits)
  qed
qed


lemma parse_line_Entry:
  assumes "parse_line l = Entry k (nd, devs)"
  shows "\<exists>field\<in>set (index_fields l). py_int (strip field) = Some k"
    and "set devs \<subseteq> set (parse_devices (device_tokens l))"
  using assms
  by (auto simp: parse_line_def index_fields_def device_tokens_def Let_def
           split: if_splits option.splits prod.splits)

lemma parse_line_nonneg:
  assumes "parse_line l = Entry k (nd, devs)"
    and "\<forall>field\<in>set (index_fields l). \<not> minus_signed field"
    and "\<forall>tok\<in>set (device_tokens l). \<not> minus_signed tok"
  shows "0 \<le> k \<and> (\<forall>d\<in>set devs. 0 \<le> d)"
proof -
  have "0 \<le> k"
  proof (rule ccontr)
    assume "\<not> 0 \<le> k"
    then have "k < 0" by simp
    from parse_line_Entry(1) [OF assms(1)] obtain field
      where f: "field \<in> set (index_fields l)" "py_int (strip field) = Some k"
      by blast
    from f(2) \<open>k < 0\<close> have "minus_signed (strip field)"
      by (rule py_int_negative)
    with assms(2) f(1) show False by (simp add: minus_signed_strip)
  qed
  moreover have "0 \<le> d" if "d \<in> set devs" for d
  proof (rule ccontr)
    assume "\<not> 0 \<le> d"
    then have "d < 0" by simp
    moreover from that parse_line_Entry(2) [OF assms(1)]
    have "d \<in> set (parse_devices (device_tokens l))" by blast
    ultimately have "\<exists>tok\<in>set (device_tokens l). minus_signed tok"
      by (rule parse_devices_negative [rotated])
    with assms(3) show False by blast
  qed
  ultimately show ?thesis by blast
qed

text \<open>
  White space is Python's, not only that of ASCII: a no-break space before the index field
  is stripped, and the sign behind it counts.  And a literal of more than 4300 digits is
  no integer for \<^verbatim>\<open>int\<close>.
\<close>

lemma parse_gpu_mapping_no_break_space:
  "parse_gpu_mapping (''0=n:1'' @ [LF, CHR 0xA0] @ ''-1=nodeA:0'')
     = [(0, ''n'', [1]), (- 1, ''nodeA'', [0])] \<and>
   \<not> unsigned (''0=n:1'' @ [LF, CHR 0xA0] @ ''-1=nodeA:0'')"
  by (simp add: parse_gpu_mapping_def parse_line_def unsigned_def minus_signed_def
        index_fields_def device_tokens_def py_defs)

lemma py_digits_capped: "max_str_digits < length (filter is_decimal s) \<Longrightarrow> py_digits s = None"
  by (cases s) (simp_all add: py_digits_def del: digits_acc.simps)

text \<open>
  C1.  The specification has a line whose index field is no integer skipped on its own,
  with the lines after it still parsed.  In the code the \<^verbatim>\<open>ValueError\<close> of
  \<^verbatim>\<open>int(pod_index_str.strip())\<close> leaves the loop: the handler sits around the whole
  loop, not around one line.  The text \<^verbatim>\<open>x=nodeA:0\<close>, line feed, \<^verbatim>\<open>1=node2:5\<close> gives the
  empty mapping, although its second line alone gives the entry for index 1.  (Parsing
  does not raise: every exception of the loop is caught at line 102.)
\<close>

theorem parse_gpu_mapping_stops_at_bad_index:
  "parse_gpu_mapping (''x=nodeA:0'' @ [LF] @ ''1=node2:5'') = [] \<and>
   parse_gpu_mapping ''1=node2:5'' = [(1, ''node2'', [5])]"
  by (simp add: parse_gpu_mapping_def parse_line_def py_defs)

text \<open>
  C2, as the claim states it, fails: the index \<^verbatim>\<open>-1\<close> and the device \<^verbatim>\<open>-2\<close> are
  accepted.
\<close>

theorem parse_gpu_mapping_negative:
  "parse_gpu_mapping ''-1=nodeA:-2'' = [(- 1, ''nodeA'', [- 2])]"
  by (simp add: parse_gpu_mapping_def parse_line_def py_defs)

text \<open>
  C2, amended.  For every annotation text in which no index field and no device token is
  minus-signed (has a minus sign as its first character that is not white space), each
  key of the returned mapping is a non-negative integer and so is every element of each
  entry's device list.  The index field of a line is the text before its first \<^verbatim>\<open>=\<close>,
  its device tokens are the comma-separated pieces after the first \<^verbatim>\<open>:\<close> that follows;
  a line without \<^verbatim>\<open>=\<close> has neither.
\<close>

theorem parse_nonneg_unless_signed:
  assumes "unsigned text" and "map_of (parse_gpu_mapping text) k = Some (nd, devs)"
  shows "0 \<le> k \<and> (\<forall>d\<in>set devs. 0 \<le> d)"
proof -
  from assms(2) have ne: "text \<noteq> []"
    by (auto simp: parse_gpu_mapping_def)
  with assms(2) have "map_of (parse_lines [] (split LF (strip text))) k = Some (nd, devs)"
    by (simp add: parse_gpu_mapping_def)
  from parse_lines_from [OF this]
  obtain l where l: "l \<in> set (split LF (strip text))" "parse_line l = Entry k (nd, devs)"
    by auto
  from assms(1) l(1) have "\<forall>field\<in>set (index_fields l). \<not> minus_signed field"
    and "\<forall>tok\<in>set (device_tokens l). \<not> minus_signed tok"
    by (auto simp: unsigned_def)
  with l(2) show ?thesis by (rule parse_line_nonneg)
qed

theorem parse_nonneg_unless_signed_witness:
  "unsigned (''- gpu map'' @ [LF] @ ''0=gpu-node-1:0, 1'') \<and>
   map_of (parse_gpu_mapping (''- gpu map'' @ [LF] @ ''0=gpu-node-1:0, 1'')) 0
     = Some (''gpu-node-1'', [0, 1]) \<and>
   (0::int) \<le> 0 \<and> list_all (\<lambda>d. 0 \<le> d) [0, 1::int]"
proof -
  have u: "unsigned (''- gpu map'' @ [LF] @ ''0=gpu-node-1:0, 1'')"
    by (simp add: unsigned_def minus_signed_def index_fields_def device_tokens_def py_defs)
  have m: "map_of (parse_gpu_mapping (''- gpu map'' @ [LF] @ ''0=gpu-node-1:0, 1'')) 0
      = Some (''gpu-node-1'', [0, 1])"
    by (simp add: parse_gpu_mapping_def parse_line_def py_defs)
  from parse_nonneg_unless_signed [OF u m] u m show ?thesis by simp
qed

text \<open>
  The dictionary assignment itself overwrites: as long as no line before it makes
  \<^verbatim>\<open>int\<close> raise, the last line that gives an entry for an index is the one the
  mapping holds.
\<close>

lemma parse_lines_Raised: "parse_line l = Raised \<Longrightarrow> parse_lines m (l # rest) = m"
  by simp

lemma parse_lines_append:
  "\<forall>l\<in>set pre. parse_line l \<noteq> Raised \<Longrightarrow>
   parse_lines m (pre @ ls) = parse_lines (parse_lines m pre) ls"
proof (induction pre arbitrary: m)
  case Nil
  then show ?case by simp
next
  case (Cons l pre)
  then show ?case by (cases "parse_line l") simp_all
qed

lemma parse_lines_keeps:
  "map_of m k = Some e \<Longrightarrow> \<forall>l\<in>set post. \<forall>e'. parse_line l \<noteq> Entry k e' \<Longrightarrow>
   map_of (parse_lines m post) k = Some e"
proof (induction post arbitrary: m)
  case Nil
  then show ?case by simp
next
  case (Cons l post)
  show ?case
  proof (cases "parse_line l")
    case Skipped
    with Cons show ?thesis by simp
  next
    case Raised
    with Cons show ?thesis by simp
  next
    case (Entry k' e')
    with Cons.prems(2) have "k' \<noteq> k"
      by (metis list.set_intros(1))
    with Cons.prems(1) have "map_of (AList.update k' e' m) k = Some e"
      by (simp add: update_conv')
    moreover from Cons.prems(2) have "\<forall>l\<in>set post. \<forall>e'. parse_line l \<noteq> Entry k e'"
      by (metis list.set_intros(2))
    ultimately have "map_of (parse_lines (AList.update k' e' m) post) k = Some e"
      by (rule Cons.IH)
    with Entry show ?thesis by simp
  qed
qed

lemma parse_lines_last_wins:
  assumes "\<forall>l\<in>set pre. parse_line l \<noteq> Raised"
    and "parse_line later = Entry k e"
    and "\<forall>l\<in>set post. \<forall>e'. parse_line l \<noteq> Entry k e'"
  shows "map_of (parse_lines m (pre @ later # post)) k = Some e"
proof -
  have "parse_lines m (pre @ later # post)
      = parse_lines (AList.update k e (parse_lines m pre)) post"
    using assms(1,2) by (simp add: parse_lines_append)
  moreover have "map_of (AList.update k e (parse_lines m pre)) k = Some e"
    by (simp add: update_conv')
  ultimately show ?thesis using assms(3) by (simp add: parse_lines_keeps)
qed

text \<open>
  C7.  Assignment to the dictionary overwrites, so of two lines for one index that are
  both parsed the later one wins: the specification's example gives \<^verbatim>\<open>nodeB\<close>.  But a
  line with a bad index field between the two ends the loop (see C1), and the mapping
  then holds the entry of the earlier line.
\<close>

theorem parse_gpu_mapping_later_line_lost:
  "parse_gpu_mapping (''0=nodeA:0'' @ [LF] @ ''0=nodeB:1'') = [(0, ''nodeB'', [1])] \<and>
   parse_gpu_mapping (''0=nodeA:0'' @ [LF] @ ''x=nodeC:2'' @ [LF] @ ''0=nodeB:1'')
     = [(0, ''nodeA'', [0])]"
  by (simp add: parse_gpu_mapping_def parse_line_def py_defs)

section \<open>Properties of the index resolver\<close>

lemma decimal_is_digit: "is_decimal c \<Longrightarrow> is_digit c"
  by (simp add: is_digit_def)

lemma digit_not_space: "is_decimal c \<Longrightarrow> \<not> is_space c"
  by (auto simp: is_decimal_def is_space_def Let_def)

lemma digit_not_sign: "is_decimal c \<Longrightarrow> c \<noteq> CHR ''-'' \<and> c \<noteq> CHR ''+'' \<and> c \<noteq> LF"
  by (auto simp: is_decimal_def LF_def)

lemma digits_acc_digits:
  "list_all is_decimal s \<Longrightarrow> digits_acc acc s = Some (foldl (\<lambda>a c. 10 * a + digit_val c) acc s)"
  by (induction s arbitrary: acc) simp_all

lemma py_int_numeric:
  assumes "numeric s" and "length s \<le> max_str_digits"
  shows "py_int s = Some (decimal s)"
proof -
  from assms(1) obtain c cs where s: "s = c # cs" and c: "is_decimal c"
    and all: "list_all is_decimal s"
    by (cases s) (auto simp: numeric_def)
  from all s have "is_decimal (last s)"
    by (metis last_in_set list.distinct(1) list_all_iff)
  with c s have "strip s = s"
    by (intro strip_fixed) (auto dest: digit_not_space)
  moreover have "length (filter is_decimal s) \<le> max_str_digits"
    using assms(2) length_filter_le [of is_decimal s] by linarith
  then have "py_digits s = Some (decimal s)"
    using c all s by (simp add: py_digits_def decimal_def digits_acc_digits del: digits_acc.simps)
  ultimately show ?thesis
    using s c digit_not_sign [OF c] by (simp add: py_int_def)
qed

lemma split_nonempty: "split sep s \<noteq> []"
  by (induction s) (auto split: list.splits)

lemma split_no_sep: "sep \<notin> set s \<Longrightarrow> split sep s = [s]"
  by (induction s) auto

lemma split_append: "split sep (pre @ sep # rest) = split sep pre @ split sep rest"
proof (induction pre)
  case Nil
  then show ?case by simp
next
  case (Cons c pre)
  obtain w ws where "split sep pre = w # ws"
    using split_nonempty [of sep pre] by (cases "split sep pre") auto
  with Cons show ?case by simp
qed

lemma split_piece: "w \<in> set (split sep s) \<Longrightarrow> length w \<le> length s \<and> set w \<subseteq> set s"
proof (induction s arbitrary: w)
  case Nil
  then show ?case by simp
next
  case (Cons c cs)
  obtain w0 ws where sp: "split sep cs = w0 # ws"
    using split_nonempty [of sep cs] by (cases "split sep cs") auto
  show ?case
  proof (cases "c = sep")
    case True
    with Cons.prems have "w = [] \<or> w \<in> set (split sep cs)" by simp
    then show ?thesis using Cons.IH [of w] by auto
  next
    case False
    with Cons.prems sp have "w = c # w0 \<or> w \<in> set ws" by simp
    moreover have "w0 \<in> set (split sep cs)" using sp by simp
    moreover have "w \<in> set ws \<Longrightarrow> w \<in> set (split sep cs)" using sp by simp
    ultimately show ?thesis using Cons.IH [of w0] Cons.IH [of w] by auto
  qed
qed

lemma re_search_Some:
  "re_search s = Some g \<Longrightarrow>
   g \<noteq> [] \<and> list_all is_decimal g \<and>
   (\<exists>pre. s = pre @ CHR ''-'' # g \<or> s = pre @ CHR ''-'' # g @ [LF])"
proof (induction s)
  case Nil
  then show ?case by simp
next
  case (Cons c cs)
  show ?case
  proof (cases "c = CHR ''-'' \<and> takeWhile is_decimal cs \<noteq> [] \<and>
         (dropWhile is_decimal cs = [] \<or> dropWhile is_decimal cs = [LF])")
    case True
    with Cons.prems have g: "g = takeWhile is_decimal cs" by simp
    have "cs = g @ dropWhile is_decimal cs" by (simp add: g)
    moreover from True have "dropWhile is_decimal cs = [] \<or> dropWhile is_decimal cs = [LF]"
      by blast
    ultimately have "cs = g \<or> cs = g @ [LF]" by (metis append_Nil2)
    then have "c # cs = [] @ CHR ''-'' # g \<or> c # cs = [] @ CHR ''-'' # g @ [LF]"
      using True by auto
    then have "\<exists>pre. c # cs = pre @ CHR ''-'' # g \<or> c # cs = pre @ CHR ''-'' # g @ [LF]" ..
    moreover have "list_all is_decimal g"
      unfolding g list_all_iff by (auto dest: set_takeWhileD)
    moreover have "g \<noteq> []" using True g by simp
    ultimately show ?thesis by simp
  next
    case False
    then have "re_search (c # cs) = re_search cs"
      by (subst re_search.simps) (rule if_not_P)
    with Cons.prems have "re_search cs = Some g" by simp
    from Cons.IH [OF this] obtain pre where
      "g \<noteq> []" "list_all is_decimal g"
      "cs = pre @ CHR ''-'' # g \<or> cs = pre @ CHR ''-'' # g @ [LF]"
      by blast
    then have "c # cs = (c # pre) @ CHR ''-'' # g \<or> c # cs = (c # pre) @ CHR ''-'' # g @ [LF]"
      by auto
    with \<open>g \<noteq> []\<close> \<open>list_all is_decimal g\<close> show ?thesis by blast
  qed
qed

lemma hyphen_suffix_found:
  assumes "g \<noteq> []" and "list_all is_decimal g"
  shows "find isdigit (rev (split (CHR ''-'') (pre @ CHR ''-'' # g))) = Some g"
proof -
  have "CHR ''-'' \<notin> set g"
    using assms(2) by (auto simp: list_all_iff dest: digit_not_sign)
  then have "split (CHR ''-'') (pre @ CHR ''-'' # g) = split (CHR ''-'') pre @ [g]"
    by (simp add: split_append split_no_sep)
  moreover have "isdigit g"
    using assms by (auto simp: isdigit_def list_all_iff dest: decimal_is_digit)
  ultimately show ?thesis by simp
qed

lemma re_search_redundant:
  assumes "name \<noteq> [] \<longrightarrow> last name \<noteq> LF" and "re_search name = Some g"
  shows "CHR ''-'' \<in> set name \<and> find isdigit (rev (split (CHR ''-'') name)) = Some g \<and>
         numeric g \<and> length g \<le> length name"
proof -
  from re_search_Some [OF assms(2)] obtain pre where
    g: "g \<noteq> []" "list_all is_decimal g"
    and "name = pre @ CHR ''-'' # g \<or> name = pre @ CHR ''-'' # g @ [LF]"
    by blast
  with assms(1) have name: "name = pre @ CHR ''-'' # g" by auto
  then show ?thesis using hyphen_suffix_found [OF g, of pre] g by (simp add: numeric_def)
qed

lemma find_Some_member: "find P xs = Some x \<Longrightarrow> P x \<and> x \<in> set xs"
  by (induction xs) (auto split: if_splits)

lemma pod_char_digit: "is_pod_char c \<Longrightarrow> is_digit c = is_decimal c"
  by (auto simp: is_pod_char_def is_digit_def is_decimal_def Let_def)

lemma pod_chars_isdigit: "list_all is_pod_char s \<Longrightarrow> isdigit s = numeric s"
  by (auto simp: isdigit_def numeric_def list_all_iff pod_char_digit)

lemma pod_name_no_line_feed: "is_pod_name name \<Longrightarrow> name \<noteq> [] \<longrightarrow> last name \<noteq> LF"
proof
  assume pn: "is_pod_name name" and ne: "name \<noteq> []"
  then have "is_pod_char (last name)"
    by (simp add: is_pod_name_def list_all_iff)
  then show "last name \<noteq> LF"
    by (auto simp: is_pod_char_def is_decimal_def LF_def)
qed

lemma pod_name_tokens:
  assumes "is_pod_name name" and "w \<in> set (split sep name)"
  shows "isdigit w = numeric w" and "length w \<le> max_str_digits"
proof -
  from split_piece [OF assms(2)] have l: "length w \<le> length name" and c: "set w \<subseteq> set name"
    by simp_all
  from c assms(1) have "list_all is_pod_char w"
    by (auto simp: is_pod_name_def list_all_iff)
  then show "isdigit w = numeric w" by (rule pod_chars_isdigit)
  from l assms(1) show "length w \<le> max_str_digits"
    by (simp add: is_pod_name_def max_str_digits_def)
qed

lemma pod_name_resolved:
  assumes "is_pod_name name"
  shows "get_pod_index_from_name name = resolve_spec name"
proof -
  let ?tokens = "rev (split (CHR ''-'') name)"
  have same: "find isdigit ?tokens = find numeric ?tokens"
    by (rule find_cong) (simp_all add: pod_name_tokens(1) [OF assms])
  have whole: "isdigit name = numeric name"
    using assms by (simp add: is_pod_name_def pod_chars_isdigit)
  have len: "length name \<le> max_str_digits"
    using assms by (simp add: is_pod_name_def max_str_digits_def)
  show ?thesis
  proof (cases "if CHR ''-'' \<in> set name then find isdigit ?tokens else None")
    case (Some part)
    then have h: "CHR ''-'' \<in> set name" and f: "find isdigit ?tokens = Some part"
      by (simp_all split: if_splits)
    from f same have f': "find numeric ?tokens = Some part" by simp
    from f have "part \<in> set (split (CHR ''-'') name)" and "isdigit part"
      by (auto dest: find_Some_member)
    then have "py_int part = Some (decimal part)"
      using pod_name_tokens [OF assms, of part "CHR ''-''"] by (simp add: py_int_numeric)
    with h f f' show ?thesis
      by (simp add: get_pod_index_from_name_def resolve_spec_def)
  next
    case None
    with same have none: "(if CHR ''-'' \<in> set name then find numeric ?tokens else None) = None"
      by (simp split: if_splits)
    have "re_search name = None"
    proof (rule ccontr)
      assume "re_search name \<noteq> None"
      then obtain g where "re_search name = Some g" by auto
      from re_search_redundant [OF pod_name_no_line_feed [OF assms] this] None
      show False by simp
    qed
    moreover have "numeric name \<Longrightarrow> py_int name = Some (decimal name)"
      using len by (simp add: py_int_numeric)
    ultimately show ?thesis
      unfolding get_pod_index_from_name_def resolve_spec_def None none
      using whole by simp
  qed
qed

text \<open>
  C6.  For every pod name the code applies the heuristic of the specification, in this
  order: (1) if the name contains a hyphen, split on hyphens and, scanning the tokens from
  the end, return the first token that consists of digits only, as an integer;
  (2) otherwise, if the whole name is numeric, return its value; (3) otherwise
  unresolved.  (The search for \<^verbatim>\<open>-(\d+)$\<close> that the code makes between the two steps
  finds nothing on a pod name that step 1 has not found.)  In particular
  \<^verbatim>\<open>gpu-scheduler-check-3\<close> resolves to 3, \<^verbatim>\<open>standalone\<close> is unresolved and \<^verbatim>\<open>7\<close>
  resolves to 7.
\<close>

theorem get_pod_index_from_name_heuristic:
  "(is_pod_name name \<longrightarrow> get_pod_index_from_name name = resolve_spec name) \<and>
   get_pod_index_from_name ''gpu-scheduler-check-3'' = Some 3 \<and>
   get_pod_index_from_name ''standalone'' = None \<and>
   get_pod_index_from_name ''7'' = Some 7"
proof (intro conjI impI)
  assume "is_pod_name name"
  then show "get_pod_index_from_name name = resolve_spec name" by (rule pod_name_resolved)
next
  show "get_pod_index_from_name ''gpu-scheduler-check-3'' = Some 3"
    by (simp add: get_pod_index_from_name_def py_defs)
next
  show "get_pod_index_from_name ''standalone'' = None"
    by (simp add: get_pod_index_from_name_def py_defs)
next
  show "get_pod_index_from_name ''7'' = Some 7"
    by (simp add: get_pod_index_from_name_def py_defs)
qed

theorem get_pod_index_from_name_heuristic_witness:
  "is_pod_name ''web-1-abc'' \<and> get_pod_index_from_name ''web-1-abc'' = Some 1 \<and>
   resolve_spec ''web-1-abc'' = Some 1"
proof -
  have p: "is_pod_name ''web-1-abc''"
    by (simp add: is_pod_name_def is_pod_char_def is_decimal_def)
  have r: "resolve_spec ''web-1-abc'' = Some 1"
    by (simp add: resolve_spec_def decimal_def py_defs)
  from get_pod_index_from_name_heuristic [of "''web-1-abc''"] p r show ?thesis by simp
qed

section \<open>Properties of node validation\<close>

lemma list_ex_no_conditions: "\<not> has_conditions n \<Longrightarrow> \<not> list_ex is_ready (node_conditions n)"
  by (auto simp: has_conditions_def node_conditions_def split: option.splits)

lemma scan_nodes_iff:
  "distinct (map node_name nodes) \<Longrightarrow>
   scan_nodes nm nodes = (\<exists>n\<in>set nodes. node_name n = nm \<and> list_ex is_ready (node_conditions n))"
proof (induction nodes)
  case Nil
  then show ?case by simp
next
  case (Cons n ns)
  show ?case
  proof (cases "node_name n = nm")
    case True
    from Cons.prems have "node_name n \<notin> set (map node_name ns)" by simp
    with True have "\<forall>m\<in>set ns. node_name m \<noteq> nm"
      by (metis image_eqI set_map)
    with True show ?thesis using list_ex_no_conditions [of n] by auto
  next
    case False
    with Cons show ?thesis by simp
  qed
qed

lemmas scenario_defs = worker2_def cluster_nodeC_def failing_cluster_def annotation_key_def
  parse_gpu_mapping_def parse_line_def get_pod_index_from_name_def validate_node_exists_def
  has_conditions_def node_conditions_def is_ready_def

text \<open>
  C4, as the claim states it, fails where it says that a failing query gives
  \<^verbatim>\<open>false\<close>: \<^verbatim>\<open>validate_node_exists\<close> catches \<^verbatim>\<open>ApiException\<close> only, and an
  exception of any other class (the client raises such when the control plane cannot be
  reached) leaves the function.
\<close>

theorem validate_node_exists_propagates:
  "validate_node_exists (failing_cluster OtherException) ''nodeC'' = Inl OtherException"
  by (simp add: validate_node_exists_def failing_cluster_def)

text \<open>
  C4, amended.  For every node name and every node list (the names in it distinct, as the
  control plane has them), \<^verbatim>\<open>isReady\<close> returns \<^verbatim>\<open>true\<close> if and only if a node of that
  name exists and has a condition of type \<^verbatim>\<open>Ready\<close> with status \<^verbatim>\<open>True\<close>; so it
  returns \<^verbatim>\<open>false\<close> when the node is absent, has no conditions, has no \<^verbatim>\<open>Ready\<close>
  condition, or has it with status \<^verbatim>\<open>False\<close> or \<^verbatim>\<open>Unknown\<close>.  When the query fails
  with an \<^verbatim>\<open>ApiException\<close> it returns \<^verbatim>\<open>false\<close>; a failure of another exception class
  is not caught here and propagates to the caller.
\<close>

theorem validate_node_exists_ready:
  "(list_node cl = Inr nodes \<and> distinct (map node_name nodes) \<longrightarrow>
      validate_node_exists cl nm =
        Inr (\<exists>n\<in>set nodes. node_name n = nm \<and>
               (\<exists>c\<in>set (node_conditions n). cond_type c = ''Ready'' \<and> cond_status c = ''True''))) \<and>
   (list_node cl = Inl ApiException \<longrightarrow> validate_node_exists cl nm = Inr False) \<and>
   (list_node cl = Inl OtherException \<longrightarrow> validate_node_exists cl nm = Inl OtherException)"
  by (simp add: validate_node_exists_def scan_nodes_iff list_ex_iff is_ready_def)

theorem validate_node_exists_ready_witness:
  "validate_node_exists (cluster_nodeC ''True'') ''nodeC'' = Inr True \<and>
   validate_node_exists (cluster_nodeC ''Unknown'') ''nodeC'' = Inr False \<and>
   validate_node_exists (cluster_nodeC ''True'') ''nodeD'' = Inr False \<and>
   validate_node_exists (failing_cluster ApiException) ''nodeC'' = Inr False \<and>
   validate_node_exists (failing_cluster OtherException) ''nodeC'' = Inl OtherException"
proof -
  have 1: "validate_node_exists (cluster_nodeC ''True'') ''nodeC'' = Inr True"
    using validate_node_exists_ready [of "cluster_nodeC ''True''"
        "[\<lparr>node_name = ''nodeC'', status = Some \<lparr>conditions =
            Some [\<lparr>cond_type = ''Ready'', cond_status = ''True''\<rparr>]\<rparr>\<rparr>]" "''nodeC''"]
    by (simp add: cluster_nodeC_def node_conditions_def)
  have 2: "validate_node_exists (cluster_nodeC ''Unknown'') ''nodeC'' = Inr False"
    using validate_node_exists_ready [of "cluster_nodeC ''Unknown''"
        "[\<lparr>node_name = ''nodeC'', status = Some \<lparr>conditions =
            Some [\<lparr>cond_type = ''Ready'', cond_status = ''Unknown''\<rparr>]\<rparr>\<rparr>]" "''nodeC''"]
    by (simp add: cluster_nodeC_def node_conditions_def)
  have 3: "validate_node_exists (cluster_nodeC ''True'') ''nodeD'' = Inr False"
    using validate_node_exists_ready [of "cluster_nodeC ''True''"
        "[\<lparr>node_name = ''nodeC'', status = Some \<lparr>conditions =
            Some [\<lparr>cond_type = ''Ready'', cond_status = ''True''\<rparr>]\<rparr>\<rparr>]" "''nodeD''"]
    by (simp add: cluster_nodeC_def node_conditions_def)
  have 4: "validate_node_exists (failing_cluster ApiException) ''nodeC'' = Inr False"
    using validate_node_exists_ready [of "failing_cluster ApiException" "[]" "''nodeC''"]
    by (simp add: failing_cluster_def)
  have 5: "validate_node_exists (failing_cluster OtherException) ''nodeC'' = Inl OtherException"
    using validate_node_exists_ready [of "failing_cluster OtherException" "[]" "''nodeC''"]
    by (simp add: failing_cluster_def)
  from 1 2 3 4 5 show ?thesis by blast
qed

section \<open>Properties of the scheduling pipeline\<close>

lemmas pipeline_defs = schedule_pod_def schedule_pod_try_def outcome_of_def pipeline_spec_def
  binding_sent_def target_of_def

lemma schedule_pod_returns: "\<exists>r. schedule_pod cl p = Inr r"
  by (auto simp: schedule_pod_def split: prod.splits sum.splits exn.splits)

lemma worker2_not_ready:
  "schedule_pod (cluster_nodeC ''False'') worker2 =
     Inr \<lparr>returned = False, exit_site = TargetNodeMissing, calls = [ListNode],
          pod_after = worker2\<rparr>"
  by (simp add: schedule_pod_def schedule_pod_try_def scenario_defs py_defs)

lemma worker2_ready:
  "schedule_pod (cluster_nodeC ''True'') worker2 =
     Inr \<lparr>returned = True, exit_site = Scheduled,
          calls = [ListNode,
                   CreateNamespacedPodBinding ''worker-2'' ''default''
                     \<lparr>binding_name = ''worker-2'', binding_namespace = ''default'',
                      target_kind = ''Node'', target_name = ''nodeC'',
                      target_api_version = ''v1''\<rparr>],
          pod_after = worker2\<rparr>"
  by (simp add: schedule_pod_def schedule_pod_try_def scenario_defs py_defs)

lemma worker2_target: "target_of worker2 = Some ''nodeC''"
  by (simp add: target_of_def scenario_defs py_defs)

text \<open>
  C3.  The per-pod decision function is total and never raises: for every cluster and
  every pod it returns a result, the outcome of that result is the one the decision
  algorithm of the specification prescribes (no-op, one of the five abandon reasons, or
  success), and the value returned is \<^verbatim>\<open>True\<close> exactly on success.
\<close>

theorem schedule_pod_total:
  "\<exists>r. schedule_pod cl p = Inr r \<and> outcome_of r = pipeline_spec cl p \<and>
       returned r = (outcome_of r = Success)"
  by (auto simp: pipeline_defs Let_def
           split: option.splits sum.splits exn.splits bool.splits prod.splits)

text \<open>
  C5.  A binding request is built and sent only after the readiness check of the target
  node has returned \<^verbatim>\<open>True\<close>: if a call of the pipeline sent a binding, then the
  annotation gives the pod a target, \<^verbatim>\<open>validate_node_exists\<close> returned \<^verbatim>\<open>True\<close> for
  it, and the requests sent are the node query followed by the one binding to that
  target.  When the check returns \<^verbatim>\<open>False\<close> the node query is the only request, and the
  pipeline abandons with \<^verbatim>\<open>NodeUnavailable\<close>.
\<close>

theorem binding_only_after_ready:
  "schedule_pod cl p = Inr r \<Longrightarrow>
   (list_ex binding_sent (calls r) \<longrightarrow>
      (\<exists>target. target_of p = Some target \<and> validate_node_exists cl target = Inr True \<and>
         calls r = [ListNode,
                    CreateNamespacedPodBinding (pod_name p) (namespace p)
                      \<lparr>binding_name = pod_name p, binding_namespace = namespace p,
                       target_kind = ''Node'', target_name = target,
                       target_api_version = ''v1''\<rparr>])) \<and>
   (\<forall>target. target_of p = Some target \<and> validate_node_exists cl target = Inr False \<longrightarrow>
      calls r = [ListNode] \<and> returned r = False \<and> exit_site r = TargetNodeMissing \<and>
      outcome_of r = NodeUnavailable)"
  by (auto simp: pipeline_defs Let_def
           split: option.splits sum.splits exn.splits bool.splits prod.splits if_splits)

theorem binding_only_after_ready_witness:
  "target_of worker2 = Some ''nodeC'' \<and>
   validate_node_exists (cluster_nodeC ''False'') ''nodeC'' = Inr False \<and>
   (\<exists>r. schedule_pod (cluster_nodeC ''False'') worker2 = Inr r \<and>
        calls r = [ListNode] \<and> outcome_of r = NodeUnavailable) \<and>
   validate_node_exists (cluster_nodeC ''True'') ''nodeC'' = Inr True \<and>
   (\<exists>r. schedule_pod (cluster_nodeC ''True'') worker2 = Inr r \<and>
        list_ex binding_sent (calls r) \<and> outcome_of r = Success)"
proof -
  have v: "validate_node_exists (cluster_nodeC ''False'') ''nodeC'' = Inr False"
    and v': "validate_node_exists (cluster_nodeC ''True'') ''nodeC'' = Inr True"
    by (simp_all add: scenario_defs)
  from binding_only_after_ready [OF worker2_not_ready] worker2_target v
  have "outcome_of \<lparr>returned = False, exit_site = TargetNodeMissing, calls = [ListNode],
          pod_after = worker2\<rparr> = NodeUnavailable"
    by simp
  with worker2_not_ready have 1:
    "\<exists>r. schedule_pod (cluster_nodeC ''False'') worker2 = Inr r \<and>
        calls r = [ListNode] \<and> outcome_of r = NodeUnavailable"
    by simp
  from binding_only_after_ready [OF worker2_ready] worker2_ready have 2:
    "\<exists>r. schedule_pod (cluster_nodeC ''True'') worker2 = Inr r \<and>
        list_ex binding_sent (calls r) \<and> outcome_of r = Success"
    by (simp add: binding_sent_def outcome_of_def)
  from 1 2 v v' worker2_target show ?thesis by blast
qed

lemma inject_cuda_env_var_worker2:
  "map env (containers (inject_cuda_env_var worker2 [4, 5]))
     = [Some [\<lparr>env_name = ''CUDA_VISIBLE_DEVICES'', env_value = ''4,5''\<rparr>]]"
  by code_simp

text \<open>
  C8.  The pipeline assigns node placement only.  Whatever the cluster answers, the pod
  object is after the call what it was before, so no field of a container (no environment
  variable in particular) has changed; the device list of the mapping entry goes into no
  request; and the requests sent are the node query and at most one binding, which names
  the pod, its namespace and the target node.  (\<^verbatim>\<open>inject_cuda_env_var\<close> would write
  the device list into the containers, but the pipeline does not call it.)
\<close>

theorem schedule_pod_frame:
  "schedule_pod cl p = Inr r \<Longrightarrow>
   pod_after r = p \<and>
   map env (containers (pod_after r)) = map env (containers p) \<and>
   length (filter binding_sent (calls r)) \<le> 1 \<and>
   (\<forall>c\<in>set (calls r).
      c = ListNode \<or>
      (\<exists>target. c = CreateNamespacedPodBinding (pod_name p) (namespace p)
                     \<lparr>binding_name = pod_name p, binding_namespace = namespace p,
                      target_kind = ''Node'', target_name = target,
                      target_api_version = ''v1''\<rparr>))"
  by (auto simp: pipeline_defs Let_def
           split: option.splits sum.splits exn.splits bool.splits prod.splits if_splits)

theorem schedule_pod_frame_witness:
  "(\<exists>r. schedule_pod (cluster_nodeC ''True'') worker2 = Inr r \<and> returned r \<and>
        map env (containers (pod_after r))
          = [Some [\<lparr>env_name = ''CUDA_VISIBLE_DEVICES'', env_value = ''0''\<rparr>]]) \<and>
   map env (containers (inject_cuda_env_var worker2 [4, 5]))
     = [Some [\<lparr>env_name = ''CUDA_VISIBLE_DEVICES'', env_value = ''4,5''\<rparr>]]"
proof -
  from schedule_pod_frame [OF worker2_ready]
  have "map env (containers (pod_after \<lparr>returned = True, exit_site = Scheduled,
          calls = [ListNode,
                   CreateNamespacedPodBinding ''worker-2'' ''default''
                     \<lparr>binding_name = ''worker-2'', binding_namespace = ''default'',
                      target_kind = ''Node'', target_name = ''nodeC'',
                      target_api_version = ''v1''\<rparr>],
          pod_after = worker2\<rparr>)) = map env (containers worker2)"
    by blast
  then have "\<exists>r. schedule_pod (cluster_nodeC ''True'') worker2 = Inr r \<and> returned r \<and>
        map env (containers (pod_after r))
          = [Some [\<lparr>env_name = ''CUDA_VISIBLE_DEVICES'', env_value = ''0''\<rparr>]]"
    using worker2_ready by (simp add: worker2_def)
  with inject_cuda_env_var_worker2 show ?thesis by blast
qed

section \<open>Properties of the watch loop\<close>

lemma for_events_no_exception: "snd (for_events cl evs) = None"
proof (induction evs)
  case Nil
  then show ?case by simp
next
  case (Cons ev evs)
  obtain r where "schedule_pod cl (object ev) = Inr r"
    using schedule_pod_returns by blast
  with Cons show ?case by (auto simp: Let_def split: prod.splits)
qed

lemma for_events_quiet: "list_all (\<lambda>a. \<not> is_watch_error a \<and> \<not> is_sleep a) (fst (for_events cl evs))"
proof (induction evs)
  case Nil
  then show ?case by simp
next
  case (Cons ev evs)
  obtain r where "schedule_pod cl (object ev) = Inr r"
    using schedule_pod_returns by blast
  with Cons show ?case
    by (auto simp: Let_def is_watch_error_def is_sleep_def split: prod.splits)
qed

lemma watch_iteration_TimedOut:
  "watch_iteration cl (evs, TimedOut) = Log INFO Watching # events_part cl evs"
  using for_events_no_exception [of cl evs]
  by (auto simp: watch_iteration_def events_part_def split: prod.splits)

lemma watch_iteration_Broken:
  "watch_iteration cl (evs, Broken e) = Log INFO Watching # events_part cl evs @ handler e"
  using for_events_no_exception [of cl evs]
  by (auto simp: watch_iteration_def events_part_def split: prod.splits)

lemma watch_iteration_sleeps: "a \<in> set (watch_iteration cl st) \<Longrightarrow> is_sleep a \<Longrightarrow> a = Sleep 5"
proof -
  assume a: "a \<in> set (watch_iteration cl st)" and s: "is_sleep a"
  obtain evs en where st: "st = (evs, en)" by (cases st)
  have q: "\<not> is_sleep b" if "b \<in> set (events_part cl evs)" for b
    using for_events_quiet [of cl evs] that by (simp add: events_part_def list_all_iff)
  show ?thesis
  proof (cases en)
    case TimedOut
    with a s st q show ?thesis
      by (auto simp: watch_iteration_TimedOut is_sleep_def)
  next
    case (Broken e)
    with a s st q show ?thesis
      by (auto simp: watch_iteration_Broken handler_def is_sleep_def)
  qed
qed

lemma watch_loop_sleeps: "a \<in> set (watch_loop cl sts) \<Longrightarrow> is_sleep a \<Longrightarrow> a = Sleep 5"
  by (induction sts) (auto dest: watch_iteration_sleeps)

lemma events_part_no_watching: "Log INFO Watching \<notin> set (events_part cl evs)"
proof (induction evs)
  case Nil
  then show ?case by (simp add: events_part_def)
next
  case (Cons ev evs)
  obtain r where "schedule_pod cl (object ev) = Inr r"
    using schedule_pod_returns by blast
  with Cons show ?case by (auto simp: events_part_def Let_def split: prod.splits)
qed

lemma watch_iteration_subscribes_once:
  "length (filter (\<lambda>a. a = Log INFO Watching) (watch_iteration cl st)) = 1"
proof -
  obtain evs en where st: "st = (evs, en)" by (cases st)
  have "filter (\<lambda>a. a = Log INFO Watching) (events_part cl evs) = []"
    using events_part_no_watching [of cl evs] by (auto simp: filter_empty_conv)
  then show ?thesis
    by (cases en) (simp_all add: st watch_iteration_TimedOut watch_iteration_Broken handler_def)
qed

lemma watch_loop_subscriptions:
  "length (filter (\<lambda>a. a = Log INFO Watching) (watch_loop cl sts)) = length sts"
  by (induction sts) (simp_all add: watch_iteration_subscribes_once)

text \<open>
  C9.  The trace of the loop.  A stream that ends by its timeout is followed at once by
  the next pass of the loop, which logs that it is watching and subscribes again: nothing
  is logged at error level and no sleep is made in between.  A stream that ends by any
  other fault is followed by the error log line, the restart notice and a sleep of 5
  seconds, and then by the next pass.  Every sleep in a trace is one of 5 seconds (no
  growth, no jitter), and the loop subscribes once for every stream the environment
  serves, so it never stops.  (What the pipeline logs for a pod is part of its result;
  the loop itself logs no error and does not sleep while it consumes events.)
\<close>

theorem watch_loop_resubscribes:
  "watch_loop cl ((evs, TimedOut) # sts)
     = Log INFO Watching # events_part cl evs @ watch_loop cl sts \<and>
   watch_loop cl ((evs, Broken e) # sts)
     = Log INFO Watching # events_part cl evs
       @ [Log ERROR (ErrorInWatchLoop e), Log INFO Restarting, Sleep 5] @ watch_loop cl sts \<and>
   list_all (\<lambda>a. \<not> is_watch_error a \<and> \<not> is_sleep a) (events_part cl evs) \<and>
   (\<forall>a\<in>set (watch_unscheduled_pods cl sts). is_sleep a \<longrightarrow> a = Sleep 5) \<and>
   length (filter (\<lambda>a. a = Log INFO Watching) (watch_unscheduled_pods cl sts)) = length sts"
proof -
  have "\<forall>a\<in>set (watch_unscheduled_pods cl sts). is_sleep a \<longrightarrow> a = Sleep 5"
    by (auto simp: watch_unscheduled_pods_def is_sleep_def dest: watch_loop_sleeps)
  moreover have "list_all (\<lambda>a. \<not> is_watch_error a \<and> \<not> is_sleep a) (events_part cl evs)"
    using for_events_quiet [of cl evs] by (simp add: events_part_def)
  moreover have
    "length (filter (\<lambda>a. a = Log INFO Watching) (watch_unscheduled_pods cl sts)) = length sts"
    by (simp add: watch_unscheduled_pods_def watch_loop_subscriptions)
  ultimately show ?thesis
    by (simp add: watch_iteration_TimedOut watch_iteration_Broken handler_def)
qed


theorem watch_loop_resubscribes_witness:
  "watch_unscheduled_pods (cluster_nodeC ''True'')
     [([], TimedOut), ([], Broken OtherException), ([], TimedOut)]
   = [Log INFO Starting,
      Log INFO Watching,
      Log INFO Watching,
      Log ERROR (ErrorInWatchLoop OtherException), Log INFO Restarting, Sleep 5,
      Log INFO Watching] \<and>
   is_sleep (Sleep 5)"
proof -
  let ?cl = "cluster_nodeC ''True''"
  have e: "events_part ?cl [] = []" by (simp add: events_part_def)
  from watch_loop_resubscribes [of ?cl "[]" "[]" OtherException]
  have 3: "watch_loop ?cl [([], TimedOut)] = [Log INFO Watching]"
    by (simp only: e watch_loop.simps append_Nil append_Nil2)
  from watch_loop_resubscribes [of ?cl "[]" "[([], TimedOut)]" OtherException]
  have 2: "watch_loop ?cl [([], Broken OtherException), ([], TimedOut)]
      = [Log INFO Watching, Log ERROR (ErrorInWatchLoop OtherException), Log INFO Restarting,
         Sleep 5, Log INFO Watching]"
    by (simp only: e 3 append_Nil append_Cons)
  from watch_loop_resubscribes
    [of ?cl "[]" "[([], Broken OtherException), ([], TimedOut)]" OtherException]
  have 1: "watch_loop ?cl [([], TimedOut), ([], Broken OtherException), ([], TimedOut)]
      = [Log INFO Watching, Log INFO Watching, Log ERROR (ErrorInWatchLoop OtherException),
         Log INFO Restarting, Sleep 5, Log INFO Watching]"
    by (simp only: e 2 append_Nil append_Cons)
  have "is_sleep (Sleep 5)" by (simp add: is_sleep_def)
  with 1 show ?thesis by (simp only: watch_unscheduled_pods_def simp_thms)
qed

section \<open>Properties of the sidecar's resolver\<close>





lemma setup_cuda_devices_unknown:
  "environ_get environ ''POD_NAME'' ''unknown'' = ''unknown'' \<Longrightarrow>
   setup_cuda_devices in_cluster read_namespaced_pod environ = environ"
  by (simp add: setup_cuda_devices_def Let_def)





end
